theory Spec2Isabelle
  imports Complex_Main
begin

section \<open>The TaskFlow service worker (src/sw.js)\<close>

text \<open>
  The worker is a set of event listeners over three platform objects: the cache storage
  (\<^verbatim>\<open>caches\<close>), the network (\<^verbatim>\<open>fetch\<close>) and the notification registration.
  Each listener is a function from the worker's world before the event to the world after
  it. A promise that rejects is the value \<open>None\<close>; the listeners' asynchronous steps are
  run in their program order. The listeners for \<^verbatim>\<open>install\<close>, \<^verbatim>\<open>activate\<close>,
  \<^verbatim>\<open>fetch\<close>, \<^verbatim>\<open>message\<close> and \<^verbatim>\<open>periodicsync\<close> are embedded; those for
  \<^verbatim>\<open>sync\<close>, \<^verbatim>\<open>push\<close> and \<^verbatim>\<open>notificationclick\<close>, and the call of
  \<^verbatim>\<open>clients.claim()\<close>, read and write no cache and are left out.
\<close>

subsection \<open>Constants\<close>

definition CACHE_NAME :: string where
  "CACHE_NAME = ''taskflow-v1.0.0''"

definition DATA_CACHE_NAME :: string where
  "DATA_CACHE_NAME = ''taskflow-data-v1.0.0''"

definition FILES_TO_CACHE :: "string list" where
  "FILES_TO_CACHE =
     [''/'', ''/index.html'', ''/static/js/bundle.js'', ''/static/css/main.css'',
      ''/manifest.json'', ''/favicon.ico'']"

subsection \<open>Tasks, responses, requests\<close>

text \<open>The fields \<^verbatim>\<open>id\<close> and \<^verbatim>\<open>text\<close> of a task are \<open>task_id\<close> and \<open>task_text\<close>.\<close>

record task =
  task_id :: int
  task_text :: string
  dueDate :: "string option"
  completed :: bool

text \<open>
  A task snapshot is a JSON object from group key to task array, kept as the list of its
  properties in the order \<^verbatim>\<open>Object.values\<close> enumerates them.
\<close>

type_synonym snapshot = "(string \<times> task list) list"

text \<open>
  A response body is either opaque text or the JSON text of a task snapshot. The snapshot
  is kept as the value that \<^verbatim>\<open>JSON.parse\<close> gives back for what \<^verbatim>\<open>JSON.stringify\<close>
  wrote.
\<close>

datatype body = Text string | Json snapshot

record response =
  status :: nat
  body :: body

datatype request_mode = Navigate | SameOrigin | NoCors | Cors

datatype http_method = GET | HEAD | POST | PUT | DELETE | PATCH | OPTIONS

text \<open>
  A request has its URL, fragment included, its mode and its HTTP method
  (the field \<open>req_method\<close>). A path such as
  \<^verbatim>\<open>/index.html\<close> stands for the URL it resolves to.
\<close>

record request =
  url :: string
  mode :: request_mode
  req_method :: http_method

subsection \<open>The cache storage\<close>

text \<open>
  A cache maps a URL without its fragment to a stored response: the platform compares
  the URL of a request with the URL of an entry without their fragments. The cache
  storage lists the named caches in creation order, which is the order of
  \<^verbatim>\<open>caches.keys()\<close> and the order in which \<^verbatim>\<open>caches.match\<close> searches them.
\<close>

type_synonym cache = "string \<rightharpoonup> response"

type_synonym cache_storage = "(string \<times> cache) list"

definition caches_keys :: "cache_storage \<Rightarrow> string list" where
  "caches_keys st = map fst st"

definition caches_has :: "string \<Rightarrow> cache_storage \<Rightarrow> bool" where
  "caches_has name st = (name \<in> set (caches_keys st))"

text \<open>\<^verbatim>\<open>caches.open(name)\<close> creates an empty cache when none has the name.\<close>

definition caches_open :: "string \<Rightarrow> cache_storage \<Rightarrow> cache_storage" where
  "caches_open name st = (if caches_has name st then st else st @ [(name, Map.empty)])"

definition caches_delete :: "string \<Rightarrow> cache_storage \<Rightarrow> cache_storage" where
  "caches_delete name st = filter (\<lambda>(n, c). n \<noteq> name) st"

fun cache_put :: "string \<Rightarrow> string \<Rightarrow> response \<Rightarrow> cache_storage \<Rightarrow> cache_storage" where
  "cache_put name key r [] = []"
| "cache_put name key r ((n, c) # st) =
     (if n = name then (n, c(key \<mapsto> r)) # st else (n, c) # cache_put name key r st)"

text \<open>\<^verbatim>\<open>cache.match\<close> on the cache of one name; \<open>None\<close> is \<^verbatim>\<open>undefined\<close>.\<close>

fun cache_match :: "string \<Rightarrow> string \<Rightarrow> cache_storage \<Rightarrow> response option" where
  "cache_match name key [] = None"
| "cache_match name key ((n, c) # st) =
     (if n = name then c key else cache_match name key st)"

text \<open>\<^verbatim>\<open>caches.match\<close>: the first entry for the key, over all caches in creation order.\<close>

fun caches_match :: "string \<Rightarrow> cache_storage \<Rightarrow> response option" where
  "caches_match key [] = None"
| "caches_match key ((n, c) # st) =
     (case c key of Some r \<Rightarrow> Some r | None \<Rightarrow> caches_match key st)"

text \<open>
  A lookup that is given a URL string, or a request, first drops the fragment. A lookup
  that is given a request finds nothing when the request's method is not \<^verbatim>\<open>GET\<close>;
  a URL string stands for a \<^verbatim>\<open>GET\<close> request.
\<close>

definition strip_fragment :: "string \<Rightarrow> string" where
  "strip_fragment u = takeWhile (\<lambda>c. c \<noteq> CHR ''#'') u"

definition cache_match_request :: "string \<Rightarrow> request \<Rightarrow> cache_storage \<Rightarrow> response option" where
  "cache_match_request name req st =
     (if req_method req = GET then cache_match name (strip_fragment (url req)) st else None)"

definition caches_match_request :: "request \<Rightarrow> cache_storage \<Rightarrow> response option" where
  "caches_match_request req st =
     (if req_method req = GET then caches_match (strip_fragment (url req)) st else None)"

subsection \<open>The worker's world\<close>

record notification =
  title :: string
  nbody :: string
  icon :: string
  tag :: string
  requireInteraction :: bool

record sw_state =
  caches :: cache_storage
  net_calls :: nat
  skip_waiting :: bool
  shown :: "notification list"

text \<open>
  The network answers a URL with a response, or fails (\<open>None\<close>: the promise of
  \<^verbatim>\<open>fetch\<close> rejects). Every call of \<^verbatim>\<open>fetch\<close> is counted.
\<close>

type_synonym network = "string \<Rightarrow> response option"

definition fetch :: "network \<Rightarrow> string \<Rightarrow> sw_state \<Rightarrow> response option \<times> sw_state" where
  "fetch net u s = (net u, s\<lparr>net_calls := Suc (net_calls s)\<rparr>)"

subsection \<open>The fetch listener\<close>

text \<open>\<^verbatim>\<open>String.prototype.includes\<close>: the pattern occurs somewhere in the text.\<close>

fun starts_with :: "string \<Rightarrow> string \<Rightarrow> bool" where
  "starts_with s [] = True"
| "starts_with [] (p # ps) = False"
| "starts_with (c # cs) (p # ps) = (c = p \<and> starts_with cs ps)"

fun str_includes :: "string \<Rightarrow> string \<Rightarrow> bool" where
  "str_includes [] p = (p = [])"
| "str_includes (c # cs) p = (starts_with (c # cs) p \<or> str_includes cs p)"

text \<open>
  The listener answers with a response or with nothing (\<open>None\<close>: \<^verbatim>\<open>respondWith\<close> is
  given \<^verbatim>\<open>undefined\<close>). A URL with \<^verbatim>\<open>/api/\<close> anywhere in it goes to the network
  first and falls back to the data cache; every other request goes to the caches first.
  The put is given the URL string of the request, the two lookups the request itself.
\<close>

definition fetch_listener :: "network \<Rightarrow> request \<Rightarrow> sw_state \<Rightarrow> response option \<times> sw_state" where
  "fetch_listener net req s =
     (if str_includes (url req) ''/api/'' then
        (let s1 = s\<lparr>caches := caches_open DATA_CACHE_NAME (caches s)\<rparr>;
             (res, s2) = fetch net (url req) s1
         in case res of
              Some r \<Rightarrow>
                (if status r = 200
                 then (Some r,
                       s2\<lparr>caches := cache_put DATA_CACHE_NAME (strip_fragment (url req)) r
                                        (caches s2)\<rparr>)
                 else (Some r, s2))
            | None \<Rightarrow> (cache_match_request DATA_CACHE_NAME req (caches s2), s2))
      else
        (case caches_match_request req (caches s) of
           Some r \<Rightarrow> (Some r, s)
         | None \<Rightarrow>
             (let (res, s1) = fetch net (url req) s
              in case res of
                   Some r \<Rightarrow> (Some r, s1)
                 | None \<Rightarrow>
                     (if mode req = Navigate
                      then (caches_match ''/index.html'' (caches s1), s1)
                      else (None, s1)))))"

text \<open>
  The specification's categories, in its words: a request is in the DATA category when
  the path of its URL starts with the reserved prefix \<^verbatim>\<open>/api/\<close>, and in the SHELL
  category otherwise. The path of a URL is what follows the origin, up to the query and
  the fragment. The listener's own test is \<open>str_includes\<close> on the whole URL.
\<close>

fun after_scheme :: "string \<Rightarrow> string" where
  "after_scheme [] = []"
| "after_scheme (c # cs) =
     (if starts_with (c # cs) ''://'' then drop 3 (c # cs) else after_scheme cs)"

definition url_path :: "string \<Rightarrow> string" where
  "url_path u =
     (let v = takeWhile (\<lambda>c. c \<noteq> CHR ''?'') (strip_fragment u)
      in if starts_with v ''/'' then v
         else dropWhile (\<lambda>c. c \<noteq> CHR ''/'') (after_scheme v))"

definition spec_data_category :: "string \<Rightarrow> bool" where
  "spec_data_category u = starts_with (url_path u) ''/api/''"

subsection \<open>The install listener\<close>

text \<open>
  \<^verbatim>\<open>cache.addAll\<close> is the platform's: it fetches every URL of the list, rejects when one
  fetch fails or one response has a status outside 200 to 299 or the status 206, and
  only when all are there writes them into the cache, each under its URL. No URL of
  \<open>FILES_TO_CACHE\<close> has a fragment, so each is its own key.
\<close>

definition addable :: "response \<Rightarrow> bool" where
  "addable r = (200 \<le> status r \<and> status r \<le> 299 \<and> status r \<noteq> 206)"

fun fetch_all :: "network \<Rightarrow> string list \<Rightarrow> (string \<times> response) list option" where
  "fetch_all net [] = Some []"
| "fetch_all net (u # us) =
     (case net u of
        None \<Rightarrow> None
      | Some r \<Rightarrow>
          (if addable r
           then (case fetch_all net us of None \<Rightarrow> None | Some rs \<Rightarrow> Some ((u, r) # rs))
           else None))"

fun put_all :: "string \<Rightarrow> (string \<times> response) list \<Rightarrow> cache_storage \<Rightarrow> cache_storage" where
  "put_all name [] st = st"
| "put_all name ((u, r) # rs) st = put_all name rs (cache_put name u r st)"

definition cache_addAll :: "network \<Rightarrow> string \<Rightarrow> string list \<Rightarrow> sw_state \<Rightarrow> bool \<times> sw_state" where
  "cache_addAll net name urls s =
     (let s1 = s\<lparr>net_calls := net_calls s + length urls\<rparr>
      in case fetch_all net urls of
           None \<Rightarrow> (False, s1)
         | Some rs \<Rightarrow> (True, s1\<lparr>caches := put_all name rs (caches s1)\<rparr>))"

text \<open>
  The promise given to \<^verbatim>\<open>event.waitUntil\<close> decides the installation: when it rejects
  the worker is discarded and the worker active before stays in charge; when it fulfils,
  \<^verbatim>\<open>self.skipWaiting()\<close> has been called.
\<close>

datatype install_outcome = Installed | InstallFailed

definition install_listener :: "network \<Rightarrow> sw_state \<Rightarrow> install_outcome \<times> sw_state" where
  "install_listener net s =
     (let s1 = s\<lparr>caches := caches_open CACHE_NAME (caches s)\<rparr>;
          (ok, s2) = cache_addAll net CACHE_NAME FILES_TO_CACHE s1
      in if ok then (Installed, s2\<lparr>skip_waiting := True\<rparr>) else (InstallFailed, s2))"

subsection \<open>The activate listener\<close>

text \<open>
  The listener walks the names \<^verbatim>\<open>caches.keys()\<close> returned and deletes the cache of every
  name that is neither of the two constants.
\<close>

definition sweep_step :: "string \<Rightarrow> cache_storage \<Rightarrow> cache_storage" where
  "sweep_step cacheName st =
     (if cacheName \<noteq> CACHE_NAME \<and> cacheName \<noteq> DATA_CACHE_NAME
      then caches_delete cacheName st else st)"

definition activate_listener :: "sw_state \<Rightarrow> sw_state" where
  "activate_listener s = s\<lparr>caches := fold sweep_step (caches_keys (caches s)) (caches s)\<rparr>"

subsection \<open>The message listener\<close>

datatype message = SKIP_WAITING | CACHE_TASK_DATA snapshot | Other_message

text \<open>\<^verbatim>\<open>new Response(body)\<close> has the status 200.\<close>

definition new_Response :: "body \<Rightarrow> response" where
  "new_Response b = \<lparr>status = 200, body = b\<rparr>"

definition message_listener :: "message \<Rightarrow> sw_state \<Rightarrow> sw_state" where
  "message_listener msg s =
     (case msg of
        SKIP_WAITING \<Rightarrow> s\<lparr>skip_waiting := True\<rparr>
      | CACHE_TASK_DATA tasks \<Rightarrow>
          s\<lparr>caches := cache_put DATA_CACHE_NAME ''/tasks-data'' (new_Response (Json tasks))
               (caches_open DATA_CACHE_NAME (caches s))\<rparr>
      | Other_message \<Rightarrow> s)"

subsection \<open>The reminder pass\<close>

text \<open>
  Instants are milliseconds since the epoch, as \<^verbatim>\<open>getTime()\<close> returns them. The
  quotient of the source is a quotient of doubles; it is taken here over the reals, which
  agrees with it on the instants a \<^verbatim>\<open>Date\<close> can hold except next to the ends of its
  range.
\<close>

definition daysDiff :: "int \<Rightarrow> int \<Rightarrow> int" where
  "daysDiff due now = \<lceil>real_of_int (due - now) / (1000 * 60 * 60 * 24)\<rceil>"

text \<open>A task's \<^verbatim>\<open>id\<close> in a template string: the decimal digits of the number.\<close>

definition digit_char :: "nat \<Rightarrow> char" where
  "digit_char d = char_of (48 + d)"

fun show_nat :: "nat \<Rightarrow> string" where
  "show_nat n = (if n < 10 then [digit_char n] else show_nat (n div 10) @ [digit_char (n mod 10)])"

definition show_int :: "int \<Rightarrow> string" where
  "show_int i = (if i < 0 then CHR ''-'' # show_nat (nat (- i)) else show_nat (nat i))"

text \<open>
  What \<^verbatim>\<open>forEach\<close> does for one task. The parser is \<^verbatim>\<open>new Date(string).getTime()\<close>,
  with \<open>None\<close> for the invalid date, whose comparisons are all false. An absent or empty
  \<^verbatim>\<open>dueDate\<close> is falsy.
\<close>

definition reminder :: "(string \<Rightarrow> int option) \<Rightarrow> int \<Rightarrow> task \<Rightarrow> notification option" where
  "reminder parse now t =
     (case dueDate t of
        None \<Rightarrow> None
      | Some d \<Rightarrow>
          (if d = [] then None
           else (case parse d of
                   None \<Rightarrow> None
                 | Some due \<Rightarrow>
                     (let dd = daysDiff due now
                      in if dd \<le> 0 \<and> \<not> completed t
                         then Some \<lparr>title = ''TaskFlow - Task Due!'',
                                    nbody = CHR 0x22 # task_text t @ CHR 0x22 # '' is '' @
                                      (if dd = 0 then ''due today'' else ''overdue''),
                                    icon = ''/favicon.ico'',
                                    tag = ''task-'' @ show_int (task_id t),
                                    requireInteraction = True\<rparr>
                         else None))))"

text \<open>
  \<^verbatim>\<open>response.json()\<close> throws on a body that is not a snapshot; the \<^verbatim>\<open>catch\<close> of the
  pass logs that and shows nothing.
\<close>

definition checkTaskReminders :: "(string \<Rightarrow> int option) \<Rightarrow> int \<Rightarrow> sw_state \<Rightarrow> sw_state" where
  "checkTaskReminders parse now s =
     (let s1 = s\<lparr>caches := caches_open DATA_CACHE_NAME (caches s)\<rparr>
      in case cache_match DATA_CACHE_NAME ''/tasks-data'' (caches s1) of
           None \<Rightarrow> s1
         | Some r \<Rightarrow>
             (case body r of
                Json tasks \<Rightarrow>
                  s1\<lparr>shown := shown s1 @ List.map_filter (reminder parse now) (concat (map snd tasks))\<rparr>
              | Text x \<Rightarrow> s1))"

definition periodicsync_listener :: "string \<Rightarrow> (string \<Rightarrow> int option) \<Rightarrow> int \<Rightarrow> sw_state \<Rightarrow> sw_state" where
  "periodicsync_listener event_tag parse now s =
     (if event_tag = ''task-reminders'' then checkTaskReminders parse now s else s)"

subsection \<open>Dates\<close>

text \<open>
  The platform's date parser on the two forms of the date-time string format that the
  examples use. It reads the date-only form \<^verbatim>\<open>YYYY-MM-DD\<close> as midnight UTC and the
  form \<^verbatim>\<open>YYYY-MM-DDTHH:mm\<close>, which names no offset, as local time; \<open>tz\<close> is the
  number of minutes by which the worker's local time is ahead of UTC. A day up to 31 in
  a shorter month runs over into the next month, and the hour 24 with zero minutes is
  the end of the day. Other strings are outside this parser; the reminder pass takes its
  parser as a parameter.
\<close>

fun parse_digits :: "string \<Rightarrow> nat \<Rightarrow> nat option" where
  "parse_digits [] acc = Some acc"
| "parse_digits (c # cs) acc =
     (if 48 \<le> (of_char c :: nat) \<and> (of_char c :: nat) \<le> 57
      then parse_digits cs (10 * acc + (of_char c - 48))
      else None)"

definition days_from_civil :: "int \<Rightarrow> int \<Rightarrow> int \<Rightarrow> int" where
  "days_from_civil y m d =
     (let y1 = (if m \<le> 2 then y - 1 else y);
          era = y1 div 400;
          yoe = y1 - era * 400;
          doy = (153 * (if m > 2 then m - 3 else m + 9) + 2) div 5 + d - 1;
          doe = yoe * 365 + yoe div 4 - yoe div 100 + doy
      in era * 146097 + doe - 719468)"

definition parse_ymd :: "string \<Rightarrow> int option" where
  "parse_ymd s =
     (if length s = 10 \<and> s ! 4 = CHR ''-'' \<and> s ! 7 = CHR ''-'' then
        (case (parse_digits (take 4 s) 0, parse_digits (take 2 (drop 5 s)) 0,
               parse_digits (drop 8 s) 0) of
           (Some y, Some m, Some d) \<Rightarrow>
             (if 1 \<le> m \<and> m \<le> 12 \<and> 1 \<le> d \<and> d \<le> 31
              then Some (days_from_civil (int y) (int m) (int d)) else None)
         | _ \<Rightarrow> None)
      else None)"

definition parse_hm :: "string \<Rightarrow> int option" where
  "parse_hm s =
     (if length s = 5 \<and> s ! 2 = CHR '':'' then
        (case (parse_digits (take 2 s) 0, parse_digits (drop 3 s) 0) of
           (Some h, Some mi) \<Rightarrow>
             (if (h \<le> 23 \<and> mi \<le> 59) \<or> (h = 24 \<and> mi = 0)
              then Some (int h * 3600000 + int mi * 60000) else None)
         | _ \<Rightarrow> None)
      else None)"

definition date_parse :: "int \<Rightarrow> string \<Rightarrow> int option" where
  "date_parse tz s =
     (if length s = 10 then map_option (\<lambda>days. days * 86400000) (parse_ymd s)
      else if length s = 16 \<and> s ! 10 = CHR ''T'' then
        (case (parse_ymd (take 10 s), parse_hm (drop 11 s)) of
           (Some days, Some ms) \<Rightarrow> Some (days * 86400000 + ms - tz * 60000)
         | _ \<Rightarrow> None)
      else None)"

subsection \<open>Example worlds\<close>

text \<open>Small worlds, requests and responses on which the listeners are run below.\<close>

definition world_of :: "cache_storage \<Rightarrow> sw_state" where
  "world_of st = \<lparr>caches = st, net_calls = 0, skip_waiting = False, shown = []\<rparr>"

definition text_response :: "nat \<Rightarrow> string \<Rightarrow> response" where
  "text_response code b = \<lparr>status = code, body = Text b\<rparr>"

definition request_of :: "string \<Rightarrow> request_mode \<Rightarrow> request" where
  "request_of u m = \<lparr>url = u, mode = m, req_method = GET\<rparr>"

definition request_by :: "http_method \<Rightarrow> string \<Rightarrow> request_mode \<Rightarrow> request" where
  "request_by meth u m = \<lparr>url = u, mode = m, req_method = meth\<rparr>"

definition offline :: network where
  "offline = (\<lambda>u. None)"

definition task_of :: "int \<Rightarrow> string \<Rightarrow> string \<Rightarrow> bool \<Rightarrow> task" where
  "task_of i txt due done = \<lparr>task_id = i, task_text = txt, dueDate = Some due, completed = done\<rparr>"

text \<open>
  A store left by an older worker, and a network on which every shell asset but
  \<^verbatim>\<open>/manifest.json\<close> is there.
\<close>

definition old_store :: cache_storage where
  "old_store = [(''taskflow-v0.9.0'', [''/index.html'' \<mapsto> text_response 200 ''old page''])]"

definition net_b_fails :: network where
  "net_b_fails =
     [''/'' \<mapsto> text_response 200 ''page'',
      ''/index.html'' \<mapsto> text_response 200 ''page'',
      ''/static/js/bundle.js'' \<mapsto> text_response 200 ''js'',
      ''/static/css/main.css'' \<mapsto> text_response 200 ''css'',
      ''/favicon.ico'' \<mapsto> text_response 200 ''ico'']"

text \<open>
  A network on which every shell asset is there, and the store that the worker leaves
  after its installation and activation on that network, from an empty store; and a
  snapshot with the three due dates of the examples.
\<close>

definition net_online :: network where
  "net_online =
     [''/'' \<mapsto> text_response 200 ''page'',
      ''/index.html'' \<mapsto> text_response 200 ''page'',
      ''/static/js/bundle.js'' \<mapsto> text_response 200 ''js'',
      ''/static/css/main.css'' \<mapsto> text_response 200 ''css'',
      ''/manifest.json'' \<mapsto> text_response 200 ''manifest'',
      ''/favicon.ico'' \<mapsto> text_response 200 ''ico'']"

definition shell_store :: cache_storage where
  "shell_store =
     [(CACHE_NAME,
       [''/'' \<mapsto> text_response 200 ''page'',
        ''/index.html'' \<mapsto> text_response 200 ''page'',
        ''/static/js/bundle.js'' \<mapsto> text_response 200 ''js'',
        ''/static/css/main.css'' \<mapsto> text_response 200 ''css'',
        ''/manifest.json'' \<mapsto> text_response 200 ''manifest'',
        ''/favicon.ico'' \<mapsto> text_response 200 ''ico''])]"

definition three_dates_snapshot :: snapshot where
  "three_dates_snapshot =
     [(''work'', [task_of 1 ''x'' ''2024-01-10T23:59'' False,
                  task_of 2 ''y'' ''2024-01-09'' False,
                  task_of 3 ''z'' ''2024-01-12'' False])]"

section \<open>Properties\<close>

subsection \<open>The cache storage\<close>

lemma caches_has_Cons: "caches_has name ((n, c) # st) = (n = name \<or> caches_has name st)"
  by (auto simp: caches_has_def caches_keys_def)

lemma caches_has_Nil: "\<not> caches_has name []"
  by (simp add: caches_has_def caches_keys_def)

lemma cache_match_absent: "\<not> caches_has name st \<Longrightarrow> cache_match name key st = None"
  by (induction st) (auto simp: caches_has_Cons)

lemma cache_match_append:
  "cache_match name key (st @ st') =
     (if caches_has name st then cache_match name key st else cache_match name key st')"
  by (induction st) (auto simp: caches_has_Cons caches_has_Nil)

lemma caches_match_append:
  "caches_match key (st @ st') =
     (case caches_match key st of Some r \<Rightarrow> Some r | None \<Rightarrow> caches_match key st')"
  by (induction st) (auto split: option.splits)

lemma caches_has_open: "caches_has name (caches_open name st)"
  by (simp add: caches_open_def caches_has_def caches_keys_def)

lemma cache_match_open: "cache_match n k (caches_open name st) = cache_match n k st"
  by (simp add: caches_open_def cache_match_append cache_match_absent)

lemma caches_match_open: "caches_match k (caches_open name st) = caches_match k st"
  by (simp add: caches_open_def caches_match_append split: option.splits)

lemma caches_has_put: "caches_has n (cache_put name key r st) = caches_has n st"
  by (induction st) (auto simp: caches_has_Cons caches_has_Nil split: if_splits)

lemma cache_match_put:
  "cache_match n k (cache_put name key r st) =
     (if n = name \<and> k = key \<and> caches_has name st then Some r else cache_match n k st)"
  by (induction st) (auto simp: caches_has_Cons caches_has_Nil)

subsection \<open>The day difference\<close>

lemma daysDiff_div: "daysDiff due now = - ((now - due) div 86400000)"
proof -
  have "(1000 * 60 * 60 * 24 :: real) = real_of_int 86400000"
    by simp
  then have "daysDiff due now = \<lceil>real_of_int (due - now) / real_of_int 86400000\<rceil>"
    by (simp only: daysDiff_def)
  also have "\<dots> = - (- (due - now) div 86400000)"
    by (simp only: ceiling_divide_eq_div)
  finally show ?thesis
    by simp
qed

lemma daysDiff_le_0: "(daysDiff due now \<le> 0) = (due \<le> now)"
proof -
  have "(0 \<le> (now - due) div 86400000) = (0 \<le> now - due)"
    by (rule pos_imp_zdiv_nonneg_iff) simp
  then show ?thesis
    by (simp add: daysDiff_div)
qed

lemma daysDiff_eq_0: "(daysDiff due now = 0) = (now - 86400000 < due \<and> due \<le> now)"
proof -
  have "((now - due) div 86400000 = 0) = (0 \<le> now - due \<and> now - due < 86400000)"
    by (auto simp: zdiv_eq_0_iff)
  then show ?thesis
    by (auto simp: daysDiff_div)
qed

subsection \<open>The two categories\<close>

text \<open>
  Every request of the specification's DATA category passes the listener's test, so what
  is proved below of the requests that pass it holds of that category.
\<close>

lemma starts_with_append: "starts_with s p \<Longrightarrow> \<exists>ys. s = p @ ys"
  by (induction s p rule: starts_with.induct) auto

lemma str_includes_mid: "str_includes (xs @ p @ ys) p"
proof (induction xs)
  case Nil
  have sw: "starts_with (p @ ys) p"
    by (induction p) auto
  show ?case
  proof (cases "p @ ys")
    case Nil
    then show ?thesis by simp
  next
    case (Cons c cs)
    with sw show ?thesis by simp
  qed
next
  case (Cons x xs)
  then show ?case by simp
qed

lemma after_scheme_suffix: "\<exists>xs. v = xs @ after_scheme v"
proof (induction v)
  case Nil
  then show ?case by simp
next
  case (Cons c cs)
  show ?case
  proof (cases "starts_with (c # cs) ''://''")
    case True
    then have "after_scheme (c # cs) = drop 3 (c # cs)"
      by (simp only: after_scheme.simps if_True)
    then have "c # cs = take 3 (c # cs) @ after_scheme (c # cs)"
      by (simp only: append_take_drop_id)
    then show ?thesis by blast
  next
    case False
    then have eq: "after_scheme (c # cs) = after_scheme cs"
      by (simp only: after_scheme.simps if_False)
    from Cons.IH obtain xs where "cs = xs @ after_scheme cs" by blast
    with eq have "c # cs = (c # xs) @ after_scheme (c # cs)"
      by simp
    then show ?thesis by blast
  qed
qed

lemma url_path_mid: "\<exists>xs ys. u = xs @ url_path u @ ys"
proof -
  define w where "w = strip_fragment u"
  define v where "v = takeWhile (\<lambda>c. c \<noteq> CHR ''?'') w"
  have u: "u = w @ dropWhile (\<lambda>c. c \<noteq> CHR ''#'') u"
    by (simp add: w_def strip_fragment_def)
  have w: "w = v @ dropWhile (\<lambda>c. c \<noteq> CHR ''?'') w"
    by (simp add: v_def)
  obtain xs where a: "v = xs @ after_scheme v"
    using after_scheme_suffix by blast
  have d: "after_scheme v = takeWhile (\<lambda>c. c \<noteq> CHR ''/'') (after_scheme v) @
      dropWhile (\<lambda>c. c \<noteq> CHR ''/'') (after_scheme v)"
    by simp
  have "\<exists>xs. v = xs @ url_path u"
  proof (cases "starts_with v ''/''")
    case True
    then have "url_path u = v"
      by (simp add: url_path_def Let_def v_def w_def)
    then show ?thesis by simp
  next
    case False
    then have "url_path u = dropWhile (\<lambda>c. c \<noteq> CHR ''/'') (after_scheme v)"
      by (simp add: url_path_def Let_def v_def w_def)
    with a d show ?thesis
      by (metis append.assoc)
  qed
  then obtain xs' where "v = xs' @ url_path u" by blast
  with u w show ?thesis
    by (metis append.assoc)
qed

lemma spec_data_is_code_data: "spec_data_category u \<Longrightarrow> str_includes u ''/api/''"
proof -
  assume "spec_data_category u"
  then obtain zs where z: "url_path u = ''/api/'' @ zs"
    unfolding spec_data_category_def using starts_with_append by blast
  obtain xs ys where "u = xs @ url_path u @ ys"
    using url_path_mid by blast
  with z have "u = xs @ ''/api/'' @ (zs @ ys)"
    by simp
  then show ?thesis
    using str_includes_mid [of xs "''/api/''" "zs @ ys"] by simp
qed

subsection \<open>The fetch listener on data requests\<close>

text \<open>
  Claim C1, as amended. A data request is one whose URL has \<^verbatim>\<open>/api/\<close> in it. When the
  network answers it, the listener returns the network's response, whatever its status;
  when the status is 200 it has also put that response into the data cache under the
  request's URL, so that a lookup of the URL in the data cache afterwards, by the URL or
  by a \<^verbatim>\<open>GET\<close> request for it, gives the same response.
\<close>

theorem data_network_first_roundtrip:
  assumes "str_includes (url req) ''/api/''" and "net (url req) = Some r"
  shows "fst (fetch_listener net req s) = Some r \<and>
         (status r = 200 \<longrightarrow>
            cache_match DATA_CACHE_NAME (strip_fragment (url req))
              (caches (snd (fetch_listener net req s))) = Some r \<and>
            cache_match_request DATA_CACHE_NAME (req\<lparr>req_method := GET\<rparr>)
              (caches (snd (fetch_listener net req s))) = Some r)"
  using assms
  by (simp add: fetch_listener_def fetch_def Let_def cache_match_put caches_has_open
      cache_match_request_def)

theorem data_network_first_roundtrip_witness:
  "fst (fetch_listener [''/api/x'' \<mapsto> text_response 200 ''ok''] (request_of ''/api/x'' Cors) (world_of []))
     = Some (text_response 200 ''ok'') \<and>
   cache_match DATA_CACHE_NAME ''/api/x''
     (caches (snd (fetch_listener [''/api/x'' \<mapsto> text_response 200 ''ok''] (request_of ''/api/x'' Cors) (world_of []))))
     = Some (text_response 200 ''ok'')"
  using data_network_first_roundtrip
    [of "request_of ''/api/x'' Cors" "[''/api/x'' \<mapsto> text_response 200 ''ok'']"
        "text_response 200 ''ok''" "world_of []"]
  by (simp add: request_of_def text_response_def strip_fragment_def)

text \<open>
  Claim C1 as it is written fails where the network answers with a success status other
  than 200: on an empty store, the answer 201 to \<^verbatim>\<open>/api/x\<close> is returned to the caller
  and the data cache has no entry for \<^verbatim>\<open>/api/x\<close> afterwards.
\<close>

theorem data_success_not_stored_counterexample:
  "str_includes (url (request_of ''/api/x'' Cors)) ''/api/'' \<and>
   fst (fetch_listener [''/api/x'' \<mapsto> text_response 201 ''made''] (request_of ''/api/x'' Cors) (world_of []))
     = Some (text_response 201 ''made'') \<and>
   cache_match DATA_CACHE_NAME ''/api/x''
     (caches (snd (fetch_listener [''/api/x'' \<mapsto> text_response 201 ''made''] (request_of ''/api/x'' Cors) (world_of []))))
     = None"
  by (simp add: fetch_listener_def fetch_def caches_open_def caches_has_def caches_keys_def
      world_of_def text_response_def request_of_def DATA_CACHE_NAME_def)

text \<open>
  Claim C2, as amended. When the network fails on a data request, the listener's answer
  is the data cache's lookup of the request itself. For a \<^verbatim>\<open>GET\<close> request that is
  the entry stored under the request's own URL, the fragment apart, when there is one,
  and nothing otherwise, whatever is stored under other URLs. For a request of any
  other method it is nothing, also when an entry is stored under its URL.
\<close>

theorem data_offline_fallback:
  assumes "str_includes (url req) ''/api/''" and "net (url req) = None"
  shows "fst (fetch_listener net req s) = cache_match_request DATA_CACHE_NAME req (caches s) \<and>
         (req_method req = GET \<longrightarrow>
            fst (fetch_listener net req s) =
              cache_match DATA_CACHE_NAME (strip_fragment (url req)) (caches s)) \<and>
         (req_method req \<noteq> GET \<longrightarrow> fst (fetch_listener net req s) = None)"
  using assms
  by (simp add: fetch_listener_def fetch_def Let_def cache_match_open cache_match_request_def)

theorem data_offline_fallback_witness:
  "fst (fetch_listener offline (request_of ''/api/a'' Cors)
          (world_of [(DATA_CACHE_NAME, [''/api/a'' \<mapsto> text_response 200 ''a''])]))
     = Some (text_response 200 ''a'') \<and>
   fst (fetch_listener offline (request_of ''/api/b'' Cors)
          (world_of [(DATA_CACHE_NAME, [''/api/a'' \<mapsto> text_response 200 ''a''])]))
     = None \<and>
   fst (fetch_listener offline (request_by POST ''/api/a'' Cors)
          (world_of [(DATA_CACHE_NAME, [''/api/a'' \<mapsto> text_response 200 ''a''])]))
     = None"
  using data_offline_fallback
    [of "request_of ''/api/a'' Cors" offline
        "world_of [(DATA_CACHE_NAME, [''/api/a'' \<mapsto> text_response 200 ''a''])]",
     THEN conjunct1]
    data_offline_fallback
    [of "request_of ''/api/b'' Cors" offline
        "world_of [(DATA_CACHE_NAME, [''/api/a'' \<mapsto> text_response 200 ''a''])]",
     THEN conjunct1]
    data_offline_fallback
    [of "request_by POST ''/api/a'' Cors" offline
        "world_of [(DATA_CACHE_NAME, [''/api/a'' \<mapsto> text_response 200 ''a''])]",
     THEN conjunct1]
  by (simp add: request_of_def request_by_def offline_def world_of_def strip_fragment_def
      cache_match_request_def)

text \<open>
  Claim C2 as it is written fails for a request that is not a \<^verbatim>\<open>GET\<close>. A
  \<^verbatim>\<open>POST\<close> to \<^verbatim>\<open>/api/a\<close> that the network answers with the status 200 leaves its
  response in the data cache under \<^verbatim>\<open>/api/a\<close>; the same \<^verbatim>\<open>POST\<close> with the network
  down is then answered with nothing, though the entry is there.
\<close>

theorem data_offline_post_counterexample:
  "spec_data_category (url (request_by POST ''/api/a'' Cors)) \<and>
   str_includes (url (request_by POST ''/api/a'' Cors)) ''/api/'' \<and>
   fst (fetch_listener [''/api/a'' \<mapsto> text_response 200 ''a''] (request_by POST ''/api/a'' Cors)
          (world_of []))
     = Some (text_response 200 ''a'') \<and>
   cache_match DATA_CACHE_NAME ''/api/a''
     (caches (snd (fetch_listener [''/api/a'' \<mapsto> text_response 200 ''a'']
        (request_by POST ''/api/a'' Cors) (world_of []))))
     = Some (text_response 200 ''a'') \<and>
   fst (fetch_listener offline (request_by POST ''/api/a'' Cors)
          (snd (fetch_listener [''/api/a'' \<mapsto> text_response 200 ''a'']
             (request_by POST ''/api/a'' Cors) (world_of []))))
     = None"
  by (simp add: fetch_listener_def fetch_def caches_open_def caches_has_def caches_keys_def
      world_of_def text_response_def request_by_def DATA_CACHE_NAME_def offline_def
      strip_fragment_def cache_match_request_def spec_data_category_def url_path_def)

text \<open>
  Claim C10. When the network answers a data request with a status other than 200, the
  listener returns that response and puts nothing: the store afterwards is the store
  before with the data cache opened, and the lookup of the request's URL in the data
  cache gives what it gave before.
\<close>

theorem data_other_status_not_stored:
  assumes "str_includes (url req) ''/api/''" and "net (url req) = Some r" and "status r \<noteq> 200"
  shows "fst (fetch_listener net req s) = Some r \<and>
         caches (snd (fetch_listener net req s)) = caches_open DATA_CACHE_NAME (caches s) \<and>
         cache_match DATA_CACHE_NAME (url req) (caches (snd (fetch_listener net req s)))
           = cache_match DATA_CACHE_NAME (url req) (caches s) \<and>
         cache_match DATA_CACHE_NAME (strip_fragment (url req)) (caches (snd (fetch_listener net req s)))
           = cache_match DATA_CACHE_NAME (strip_fragment (url req)) (caches s)"
  using assms
  by (simp add: fetch_listener_def fetch_def Let_def cache_match_open)

theorem data_other_status_not_stored_witness:
  "fst (fetch_listener [''/api/a'' \<mapsto> text_response 204 ''''] (request_of ''/api/a'' Cors)
          (world_of [(DATA_CACHE_NAME, [''/api/a'' \<mapsto> text_response 200 ''old''])]))
     = Some (text_response 204 '''') \<and>
   cache_match DATA_CACHE_NAME ''/api/a''
     (caches (snd (fetch_listener [''/api/a'' \<mapsto> text_response 204 ''''] (request_of ''/api/a'' Cors)
          (world_of [(DATA_CACHE_NAME, [''/api/a'' \<mapsto> text_response 200 ''old''])]))))
     = Some (text_response 200 ''old'')"
  using data_other_status_not_stored
    [of "request_of ''/api/a'' Cors" "[''/api/a'' \<mapsto> text_response 204 '''']"
        "text_response 204 ''''"
        "world_of [(DATA_CACHE_NAME, [''/api/a'' \<mapsto> text_response 200 ''old''])]"]
  by (simp add: request_of_def text_response_def world_of_def cache_match_open)

subsection \<open>The activate listener\<close>

lemma caches_delete_filter:
  "caches_delete name (filter (\<lambda>(n, c). P n) st) = filter (\<lambda>(n, c). P n \<and> n \<noteq> name) st"
  by (induction st) (auto simp: caches_delete_def)

lemma fold_sweep_step:
  "fold sweep_step names (filter (\<lambda>(n, c). P n) st) =
     filter (\<lambda>(n, c). P n \<and> (n \<in> set names \<longrightarrow> n = CACHE_NAME \<or> n = DATA_CACHE_NAME)) st"
proof (induction names arbitrary: P)
  case Nil
  then show ?case by simp
next
  case (Cons a names)
  show ?case
  proof (cases "a \<noteq> CACHE_NAME \<and> a \<noteq> DATA_CACHE_NAME")
    case True
    then have "fold sweep_step (a # names) (filter (\<lambda>(n, c). P n) st) =
        fold sweep_step names (filter (\<lambda>(n, c). P n \<and> n \<noteq> a) st)"
      by (simp add: sweep_step_def caches_delete_filter)
    also have "\<dots> = filter (\<lambda>(n, c). (P n \<and> n \<noteq> a) \<and>
        (n \<in> set names \<longrightarrow> n = CACHE_NAME \<or> n = DATA_CACHE_NAME)) st"
      by (rule Cons.IH)
    also have "\<dots> = filter (\<lambda>(n, c). P n \<and>
        (n \<in> set (a # names) \<longrightarrow> n = CACHE_NAME \<or> n = DATA_CACHE_NAME)) st"
      using True by (intro filter_cong) auto
    finally show ?thesis .
  next
    case False
    then have "fold sweep_step (a # names) (filter (\<lambda>(n, c). P n) st) =
        fold sweep_step names (filter (\<lambda>(n, c). P n) st)"
      by (auto simp: sweep_step_def)
    also have "\<dots> = filter (\<lambda>(n, c). P n \<and>
        (n \<in> set names \<longrightarrow> n = CACHE_NAME \<or> n = DATA_CACHE_NAME)) st"
      by (rule Cons.IH)
    also have "\<dots> = filter (\<lambda>(n, c). P n \<and>
        (n \<in> set (a # names) \<longrightarrow> n = CACHE_NAME \<or> n = DATA_CACHE_NAME)) st"
      using False by (intro filter_cong) auto
    finally show ?thesis .
  qed
qed

lemma activate_caches:
  "caches (activate_listener s) =
     filter (\<lambda>(n, c). n = CACHE_NAME \<or> n = DATA_CACHE_NAME) (caches s)"
proof -
  have "fold sweep_step (caches_keys (caches s)) (filter (\<lambda>(n, c). True) (caches s)) =
      filter (\<lambda>(n, c). True \<and>
        (n \<in> set (caches_keys (caches s)) \<longrightarrow> n = CACHE_NAME \<or> n = DATA_CACHE_NAME)) (caches s)"
    by (rule fold_sweep_step)
  also have "\<dots> = filter (\<lambda>(n, c). n = CACHE_NAME \<or> n = DATA_CACHE_NAME) (caches s)"
    by (intro filter_cong) (auto simp: caches_keys_def intro: rev_image_eqI)
  finally show ?thesis
    by (simp add: activate_listener_def)
qed

lemma caches_keys_filter:
  "caches_keys (filter (\<lambda>(n, c). P n) st) = filter P (caches_keys st)"
  by (induction st) (auto simp: caches_keys_def)

lemma cache_match_filter:
  "P name \<Longrightarrow> cache_match name k (filter (\<lambda>(n, c). P n) st) = cache_match name k st"
  by (induction st) auto

text \<open>
  Claim C5. The sweep of the activate listener keeps, in their order and with their
  contents, the caches named \<open>CACHE_NAME\<close> or \<open>DATA_CACHE_NAME\<close> and deletes every other
  one: the names it deletes are exactly the names of the store that are neither of the
  two. Whatever other names the store holds, each of the two current caches is in the
  store after the sweep when it was before, and every lookup in it gives what it gave.
\<close>

theorem activate_sweep_exact:
  "caches (activate_listener s) =
     filter (\<lambda>(n, c). n = CACHE_NAME \<or> n = DATA_CACHE_NAME) (caches s) \<and>
   caches_keys (caches (activate_listener s)) =
     filter (\<lambda>n. n = CACHE_NAME \<or> n = DATA_CACHE_NAME) (caches_keys (caches s)) \<and>
   set (caches_keys (caches s)) - set (caches_keys (caches (activate_listener s))) =
     {n \<in> set (caches_keys (caches s)). n \<noteq> CACHE_NAME \<and> n \<noteq> DATA_CACHE_NAME} \<and>
   caches_has CACHE_NAME (caches (activate_listener s)) = caches_has CACHE_NAME (caches s) \<and>
   caches_has DATA_CACHE_NAME (caches (activate_listener s)) = caches_has DATA_CACHE_NAME (caches s) \<and>
   (\<forall>k. cache_match CACHE_NAME k (caches (activate_listener s)) = cache_match CACHE_NAME k (caches s)) \<and>
   (\<forall>k. cache_match DATA_CACHE_NAME k (caches (activate_listener s)) =
         cache_match DATA_CACHE_NAME k (caches s))"
proof -
  have keys: "caches_keys (caches (activate_listener s)) =
      filter (\<lambda>n. n = CACHE_NAME \<or> n = DATA_CACHE_NAME) (caches_keys (caches s))"
    by (simp only: activate_caches caches_keys_filter)
  have del: "set (caches_keys (caches s)) - set (caches_keys (caches (activate_listener s))) =
      {n \<in> set (caches_keys (caches s)). n \<noteq> CACHE_NAME \<and> n \<noteq> DATA_CACHE_NAME}"
    unfolding keys by auto
  have has: "caches_has CACHE_NAME (caches (activate_listener s)) = caches_has CACHE_NAME (caches s)"
    "caches_has DATA_CACHE_NAME (caches (activate_listener s)) = caches_has DATA_CACHE_NAME (caches s)"
    unfolding caches_has_def keys by auto
  have m1: "cache_match CACHE_NAME k (caches (activate_listener s)) = cache_match CACHE_NAME k (caches s)" for k
    unfolding activate_caches by (rule cache_match_filter) simp
  have m2: "cache_match DATA_CACHE_NAME k (caches (activate_listener s)) =
      cache_match DATA_CACHE_NAME k (caches s)" for k
    unfolding activate_caches by (rule cache_match_filter) simp
  from keys del has m1 m2 show ?thesis
    by (simp only: activate_caches simp_thms)
qed

theorem activate_sweep_exact_witness:
  "caches_keys (caches (activate_listener
     (world_of [(''taskflow-v0.9.0'', Map.empty), (CACHE_NAME, Map.empty),
                (''taskflow-data-v0.9.0'', Map.empty), (DATA_CACHE_NAME, Map.empty),
                (''unrelated'', Map.empty)])))
   = [CACHE_NAME, DATA_CACHE_NAME]"
  using activate_sweep_exact
    [of "world_of [(''taskflow-v0.9.0'', Map.empty), (CACHE_NAME, Map.empty),
                (''taskflow-data-v0.9.0'', Map.empty), (DATA_CACHE_NAME, Map.empty),
                (''unrelated'', Map.empty)]"]
  by (simp add: world_of_def caches_keys_def CACHE_NAME_def DATA_CACHE_NAME_def)

text \<open>
  Claim C6. Running the activate listener a second time right after the first changes
  nothing: the store, and so the set of cache names kept, is the same after the second
  run as after the first.
\<close>

theorem activate_twice:
  "caches (activate_listener (activate_listener s)) = caches (activate_listener s) \<and>
   set (caches_keys (caches (activate_listener (activate_listener s)))) =
     set (caches_keys (caches (activate_listener s)))"
proof -
  have "caches (activate_listener (activate_listener s)) = caches (activate_listener s)"
    by (simp add: activate_caches [of "activate_listener s"] activate_caches [of s])
  then show ?thesis by simp
qed

theorem activate_twice_witness:
  "caches_keys (caches (activate_listener (activate_listener
     (world_of [(''taskflow-v0.9.0'', Map.empty), (CACHE_NAME, Map.empty), (''unrelated'', Map.empty)]))))
   = caches_keys (caches (activate_listener
     (world_of [(''taskflow-v0.9.0'', Map.empty), (CACHE_NAME, Map.empty), (''unrelated'', Map.empty)])))"
  using activate_twice
    [of "world_of [(''taskflow-v0.9.0'', Map.empty), (CACHE_NAME, Map.empty), (''unrelated'', Map.empty)]"]
  by simp

subsection \<open>The install listener\<close>

lemma fetch_all_Some_iff:
  "(fetch_all net urls \<noteq> None) = (\<forall>u\<in>set urls. \<exists>r. net u = Some r \<and> addable r)"
  by (induction urls) (auto split: option.splits)

lemma fetch_all_entries:
  "fetch_all net urls = Some rs \<Longrightarrow>
     map fst rs = urls \<and> (\<forall>(u, r)\<in>set rs. net u = Some r)"
  by (induction urls arbitrary: rs) (auto split: option.splits if_splits)

lemma cache_match_put_all:
  assumes "caches_has name st" and "\<forall>(u, r)\<in>set rs. net u = Some r"
  shows "cache_match name k (put_all name rs st) =
           (if k \<in> fst ` set rs then net k else cache_match name k st)"
  using assms
proof (induction rs arbitrary: st)
  case Nil
  then show ?case by simp
next
  case (Cons p rs)
  obtain u r where p: "p = (u, r)" by (cases p)
  from Cons.prems p have net: "net u = Some r" and rest: "\<forall>(u, r)\<in>set rs. net u = Some r"
    by auto
  have has: "caches_has name (cache_put name u r st)"
    using Cons.prems(1) by (simp add: caches_has_put)
  have "cache_match name k (put_all name (p # rs) st) =
      cache_match name k (put_all name rs (cache_put name u r st))"
    by (simp add: p)
  also have "\<dots> = (if k \<in> fst ` set rs then net k
      else cache_match name k (cache_put name u r st))"
    by (rule Cons.IH [OF has rest])
  also have "\<dots> = (if k \<in> fst ` set (p # rs) then net k else cache_match name k st)"
    using Cons.prems(1) net by (auto simp: p cache_match_put)
  finally show ?case .
qed

text \<open>
  Claim C7. The installation succeeds exactly when every asset of \<open>FILES_TO_CACHE\<close> is
  fetched with a response that \<^verbatim>\<open>addAll\<close> accepts; if the fetch of one asset fails,
  it fails. A failed installation does not call \<^verbatim>\<open>skipWaiting\<close> and writes no entry:
  it leaves the store as it was but for the shell cache it opened, so every lookup, in
  one cache or over all of them, gives what it gave before and an older generation goes
  on serving its entries. A successful installation has called \<^verbatim>\<open>skipWaiting\<close> and
  the shell cache then holds, for every asset of the list, the response the network
  gave for it.
\<close>

theorem install_all_or_nothing:
  "(fst (install_listener net s) = Installed) =
     (\<forall>u\<in>set FILES_TO_CACHE. \<exists>r. net u = Some r \<and> addable r) \<and>
   ((\<exists>u\<in>set FILES_TO_CACHE. net u = None) \<longrightarrow> fst (install_listener net s) = InstallFailed) \<and>
   (fst (install_listener net s) = InstallFailed \<longrightarrow>
      skip_waiting (snd (install_listener net s)) = skip_waiting s \<and>
      caches (snd (install_listener net s)) = caches_open CACHE_NAME (caches s) \<and>
      (\<forall>n k. cache_match n k (caches (snd (install_listener net s))) = cache_match n k (caches s)) \<and>
      (\<forall>k. caches_match k (caches (snd (install_listener net s))) = caches_match k (caches s))) \<and>
   (fst (install_listener net s) = Installed \<longrightarrow>
      skip_waiting (snd (install_listener net s)) \<and>
      (\<forall>u\<in>set FILES_TO_CACHE.
         net u \<noteq> None \<and>
         cache_match CACHE_NAME u (caches (snd (install_listener net s))) = net u))"
proof (cases "fetch_all net FILES_TO_CACHE")
  case None
  then have run: "install_listener net s =
      (InstallFailed, s\<lparr>caches := caches_open CACHE_NAME (caches s),
                         net_calls := net_calls s + length FILES_TO_CACHE\<rparr>)"
    by (simp add: install_listener_def cache_addAll_def Let_def)
  from None have "\<not> (\<forall>u\<in>set FILES_TO_CACHE. \<exists>r. net u = Some r \<and> addable r)"
    using fetch_all_Some_iff [of net FILES_TO_CACHE] by simp
  then show ?thesis
    by (simp add: run cache_match_open caches_match_open)
next
  case (Some rs)
  then have run: "install_listener net s =
      (Installed, s\<lparr>caches := put_all CACHE_NAME rs (caches_open CACHE_NAME (caches s)),
                     net_calls := net_calls s + length FILES_TO_CACHE,
                     skip_waiting := True\<rparr>)"
    by (simp add: install_listener_def cache_addAll_def Let_def)
  from Some have all: "\<forall>u\<in>set FILES_TO_CACHE. \<exists>r. net u = Some r \<and> addable r"
    using fetch_all_Some_iff [of net FILES_TO_CACHE] by simp
  from fetch_all_entries [OF Some]
  have keys: "map fst rs = FILES_TO_CACHE" and ent: "\<forall>(u, r)\<in>set rs. net u = Some r"
    by simp_all
  have stored: "cache_match CACHE_NAME u
      (put_all CACHE_NAME rs (caches_open CACHE_NAME (caches s))) = net u"
    if "u \<in> set FILES_TO_CACHE" for u
  proof -
    from that keys have "u \<in> fst ` set rs"
      by (metis set_map)
    then show ?thesis
      using cache_match_put_all [OF caches_has_open ent] by simp
  qed
  from all have none: "\<not> (\<exists>u\<in>set FILES_TO_CACHE. net u = None)"
    by auto
  from all have some: "\<forall>u\<in>set FILES_TO_CACHE. net u \<noteq> None"
    by auto
  show ?thesis
    using all none some stored by (simp add: run)
qed

theorem install_all_or_nothing_witness:
  "fst (install_listener net_b_fails (world_of old_store)) = InstallFailed \<and>
   \<not> skip_waiting (snd (install_listener net_b_fails (world_of old_store))) \<and>
   caches_match ''/index.html'' (caches (snd (install_listener net_b_fails (world_of old_store))))
     = Some (text_response 200 ''old page'') \<and>
   cache_match CACHE_NAME ''/index.html'' (caches (snd (install_listener net_b_fails (world_of old_store))))
     = None"
proof -
  let ?run = "install_listener net_b_fails (world_of old_store)"
  note inst = install_all_or_nothing [of net_b_fails "world_of old_store"]
  have "\<exists>u\<in>set FILES_TO_CACHE. net_b_fails u = None"
    by (simp add: FILES_TO_CACHE_def net_b_fails_def)
  with inst have failed: "fst ?run = InstallFailed"
    by blast
  with inst have same: "skip_waiting (snd ?run) = skip_waiting (world_of old_store)"
    "\<forall>n k. cache_match n k (caches (snd ?run)) = cache_match n k (caches (world_of old_store))"
    "\<forall>k. caches_match k (caches (snd ?run)) = caches_match k (caches (world_of old_store))"
    by blast+
  from failed same show ?thesis
    by (simp add: old_store_def world_of_def CACHE_NAME_def)
qed

subsection \<open>The fetch listener on shell requests\<close>

lemma caches_match_found:
  "cache_match name k st = Some r \<Longrightarrow> \<exists>r'. caches_match k st = Some r'"
  by (induction st) (auto split: if_splits option.splits)

lemma caches_match_only_holder:
  assumes "distinct (caches_keys st)"
    and "\<forall>n. n \<noteq> name \<longrightarrow> cache_match n k st = None"
    and "cache_match name k st = Some r"
  shows "caches_match k st = Some r"
  using assms
proof (induction st)
  case Nil
  then show ?case by simp
next
  case (Cons p st)
  obtain n c where p: "p = (n, c)" by (cases p)
  show ?case
  proof (cases "n = name")
    case True
    with Cons.prems p show ?thesis by simp
  next
    case False
    with Cons.prems(2) p have ck: "c k = None"
      by (auto dest: spec [of _ n])
    have d: "distinct (caches_keys st)" and nin: "\<not> caches_has n st"
      using Cons.prems(1) p by (auto simp: caches_keys_def caches_has_def)
    have others: "\<forall>m. m \<noteq> name \<longrightarrow> cache_match m k st = None"
    proof (intro allI impI)
      fix m assume m: "m \<noteq> name"
      show "cache_match m k st = None"
      proof (cases "m = n")
        case True
        with nin show ?thesis by (simp add: cache_match_absent)
      next
        case False
        with Cons.prems(2) p m show ?thesis
          by (auto dest: spec [of _ m])
      qed
    qed
    have "cache_match name k st = Some r"
      using Cons.prems(3) p False by simp
    with Cons.IH d others have "caches_match k st = Some r"
      by blast
    with ck p show ?thesis by simp
  qed
qed

lemma cache_match_filter_out:
  "\<not> P name \<Longrightarrow> cache_match name k (filter (\<lambda>(n, c). P n) st) = None"
  by (induction st) auto

lemma distinct_keys_filter:
  "distinct (caches_keys st) \<Longrightarrow> distinct (caches_keys (filter (\<lambda>(n, c). P n) st))"
  by (induction st) (auto simp: caches_keys_def)

lemma files_have_no_fragment: "\<forall>u\<in>set FILES_TO_CACHE. strip_fragment u = u"
  by (simp add: FILES_TO_CACHE_def strip_fragment_def)

lemma shell_store_reached:
  "fst (install_listener net_online (world_of [])) = Installed \<and>
   caches (activate_listener (snd (install_listener net_online (world_of [])))) = shell_store"
  by (simp add: install_listener_def cache_addAll_def Let_def FILES_TO_CACHE_def net_online_def
      addable_def text_response_def world_of_def caches_open_def caches_has_def caches_keys_def
      activate_listener_def sweep_step_def shell_store_def CACHE_NAME_def)

lemma fetch_listener_calls_network:
  assumes "str_includes (url req) ''/api/'' \<or> req_method req \<noteq> GET"
  shows "net_calls (snd (fetch_listener net req s)) = Suc (net_calls s)"
proof (cases "str_includes (url req) ''/api/''")
  case True
  then show ?thesis
    by (cases "net (url req)") (simp_all add: fetch_listener_def fetch_def Let_def)
next
  case False
  with assms have "caches_match_request req (caches s) = None"
    by (simp add: caches_match_request_def)
  with False show ?thesis
    by (cases "net (url req)") (simp_all add: fetch_listener_def fetch_def Let_def)
qed

text \<open>
  Claim C3, as amended. The listener treats as a shell request one whose URL has no
  \<^verbatim>\<open>/api/\<close> anywhere in it. For such a request with the method \<^verbatim>\<open>GET\<close>, when the
  shell cache holds an entry for its URL, the fragment apart, the listener answers with
  a cached entry and leaves the world as it was, so the network is not called: the count
  of network calls is the same after as before. The entry it answers with is the first
  one for the URL over all caches in creation order; it is the shell cache's entry when
  no other cache holds one for the URL, and so it is after the activate listener has
  run, when the data cache holds none for the URL. For a request of another method, and
  for a request whose URL has \<^verbatim>\<open>/api/\<close> in it, the network is called once.
\<close>

theorem shell_cache_first:
  "(\<not> str_includes (url req) ''/api/'' \<and> req_method req = GET \<and>
    cache_match CACHE_NAME (strip_fragment (url req)) (caches s) = Some r \<longrightarrow>
      (\<exists>r'. fetch_listener net req s = (Some r', s) \<and>
         caches_match (strip_fragment (url req)) (caches s) = Some r' \<and>
         net_calls (snd (fetch_listener net req s)) = net_calls s \<and>
         (distinct (caches_keys (caches s)) \<and>
          (\<forall>n. n \<noteq> CACHE_NAME \<longrightarrow> cache_match n (strip_fragment (url req)) (caches s) = None)
            \<longrightarrow> r' = r))) \<and>
   (\<not> str_includes (url req) ''/api/'' \<and> req_method req = GET \<and>
    cache_match CACHE_NAME (strip_fragment (url req)) (caches s) = Some r \<and>
    distinct (caches_keys (caches s)) \<and>
    cache_match DATA_CACHE_NAME (strip_fragment (url req)) (caches s) = None \<longrightarrow>
      fetch_listener net req (activate_listener s) = (Some r, activate_listener s)) \<and>
   (str_includes (url req) ''/api/'' \<or> req_method req \<noteq> GET \<longrightarrow>
      net_calls (snd (fetch_listener net req s)) = Suc (net_calls s))"
proof (intro conjI impI)
  assume a: "\<not> str_includes (url req) ''/api/'' \<and> req_method req = GET \<and>
    cache_match CACHE_NAME (strip_fragment (url req)) (caches s) = Some r"
  then obtain r' where r': "caches_match (strip_fragment (url req)) (caches s) = Some r'"
    using caches_match_found by blast
  with a have run: "fetch_listener net req s = (Some r', s)"
    by (simp add: fetch_listener_def caches_match_request_def)
  have "r' = r"
    if "distinct (caches_keys (caches s))"
      and "\<forall>n. n \<noteq> CACHE_NAME \<longrightarrow> cache_match n (strip_fragment (url req)) (caches s) = None"
  proof -
    from a have "cache_match CACHE_NAME (strip_fragment (url req)) (caches s) = Some r"
      by simp
    from caches_match_only_holder [OF that this] r' show ?thesis by simp
  qed
  with r' run show "\<exists>r'. fetch_listener net req s = (Some r', s) \<and>
         caches_match (strip_fragment (url req)) (caches s) = Some r' \<and>
         net_calls (snd (fetch_listener net req s)) = net_calls s \<and>
         (distinct (caches_keys (caches s)) \<and>
          (\<forall>n. n \<noteq> CACHE_NAME \<longrightarrow> cache_match n (strip_fragment (url req)) (caches s) = None)
            \<longrightarrow> r' = r)"
    by simp
next
  assume b: "\<not> str_includes (url req) ''/api/'' \<and> req_method req = GET \<and>
    cache_match CACHE_NAME (strip_fragment (url req)) (caches s) = Some r \<and>
    distinct (caches_keys (caches s)) \<and>
    cache_match DATA_CACHE_NAME (strip_fragment (url req)) (caches s) = None"
  let ?k = "strip_fragment (url req)"
  let ?st = "caches (activate_listener s)"
  have d: "distinct (caches_keys ?st)"
    using b by (simp only: activate_caches distinct_keys_filter)
  have shell: "cache_match CACHE_NAME ?k ?st = Some r"
    using b by (simp add: activate_caches cache_match_filter)
  have others: "\<forall>n. n \<noteq> CACHE_NAME \<longrightarrow> cache_match n ?k ?st = None"
  proof (intro allI impI)
    fix n assume n: "n \<noteq> CACHE_NAME"
    show "cache_match n ?k ?st = None"
    proof (cases "n = DATA_CACHE_NAME")
      case True
      with b show ?thesis
        by (simp add: activate_caches cache_match_filter)
    next
      case False
      with n show ?thesis
        by (simp add: activate_caches cache_match_filter_out)
    qed
  qed
  have "caches_match ?k ?st = Some r"
    by (rule caches_match_only_holder [OF d others shell])
  with b show "fetch_listener net req (activate_listener s) = (Some r, activate_listener s)"
    by (simp add: fetch_listener_def caches_match_request_def)
next
  assume "str_includes (url req) ''/api/'' \<or> req_method req \<noteq> GET"
  then show "net_calls (snd (fetch_listener net req s)) = Suc (net_calls s)"
    by (rule fetch_listener_calls_network)
qed

theorem shell_cache_first_witness:
  "fetch_listener offline (request_of ''/index.html'' Navigate)
     (world_of [(DATA_CACHE_NAME, [''/tasks-data'' \<mapsto> text_response 200 ''{}'']),
                (CACHE_NAME, [''/index.html'' \<mapsto> text_response 200 ''page''])])
   = (Some (text_response 200 ''page''),
      world_of [(DATA_CACHE_NAME, [''/tasks-data'' \<mapsto> text_response 200 ''{}'']),
                (CACHE_NAME, [''/index.html'' \<mapsto> text_response 200 ''page''])]) \<and>
   net_calls (snd (fetch_listener offline (request_by HEAD ''/index.html'' NoCors)
     (world_of [(DATA_CACHE_NAME, [''/tasks-data'' \<mapsto> text_response 200 ''{}'']),
                (CACHE_NAME, [''/index.html'' \<mapsto> text_response 200 ''page''])]))) = 1"
  using shell_cache_first
    [where req = "request_of ''/index.html'' Navigate"
       and s = "world_of [(DATA_CACHE_NAME, [''/tasks-data'' \<mapsto> text_response 200 ''{}'']),
                   (CACHE_NAME, [''/index.html'' \<mapsto> text_response 200 ''page''])]"
       and r = "text_response 200 ''page''" and net = offline, THEN conjunct1]
    shell_cache_first
    [where req = "request_by HEAD ''/index.html'' NoCors"
       and s = "world_of [(DATA_CACHE_NAME, [''/tasks-data'' \<mapsto> text_response 200 ''{}'']),
                   (CACHE_NAME, [''/index.html'' \<mapsto> text_response 200 ''page''])]"
       and net = offline, THEN conjunct2, THEN conjunct2]
  by (simp add: request_of_def request_by_def world_of_def caches_keys_def CACHE_NAME_def
      DATA_CACHE_NAME_def strip_fragment_def)

text \<open>
  Claim C3 as it is written fails on the store that the worker's own installation and
  activation leave, which holds only the shell cache with the shell assets. A \<^verbatim>\<open>POST\<close> to \<^verbatim>\<open>/index.html\<close> is in the
  SHELL category and the shell cache holds an entry for its URL, yet the lookup with the
  request finds nothing, the network is called and its fresh response is the answer. A
  navigation to \<^verbatim>\<open>/index.html#/api/docs\<close> is in the SHELL category by its path and
  the shell cache holds its URL, yet the listener routes it to the network first.
\<close>

theorem shell_network_called_counterexample:
  "\<not> spec_data_category (url (request_by POST ''/index.html'' SameOrigin)) \<and>
   \<not> str_includes (url (request_by POST ''/index.html'' SameOrigin)) ''/api/'' \<and>
   cache_match CACHE_NAME ''/index.html'' shell_store = Some (text_response 200 ''page'') \<and>
   net_calls (world_of shell_store) = 0 \<and>
   net_calls (snd (fetch_listener [''/index.html'' \<mapsto> text_response 200 ''fresh'']
      (request_by POST ''/index.html'' SameOrigin) (world_of shell_store))) = 1 \<and>
   fst (fetch_listener [''/index.html'' \<mapsto> text_response 200 ''fresh'']
      (request_by POST ''/index.html'' SameOrigin) (world_of shell_store))
     = Some (text_response 200 ''fresh'') \<and>
   \<not> spec_data_category (url (request_of ''/index.html#/api/docs'' Navigate)) \<and>
   cache_match CACHE_NAME (strip_fragment ''/index.html#/api/docs'') shell_store
     = Some (text_response 200 ''page'') \<and>
   net_calls (snd (fetch_listener [''/index.html#/api/docs'' \<mapsto> text_response 200 ''fresh'']
      (request_of ''/index.html#/api/docs'' Navigate) (world_of shell_store))) = 1 \<and>
   fst (fetch_listener [''/index.html#/api/docs'' \<mapsto> text_response 200 ''fresh'']
      (request_of ''/index.html#/api/docs'' Navigate) (world_of shell_store))
     = Some (text_response 200 ''fresh'')"
  by (simp add: fetch_listener_def fetch_def caches_open_def caches_has_def caches_keys_def
      world_of_def text_response_def request_by_def request_of_def shell_store_def
      CACHE_NAME_def DATA_CACHE_NAME_def strip_fragment_def caches_match_request_def
      spec_data_category_def url_path_def)

text \<open>
  Claim C4, as amended. For a request whose URL has no \<^verbatim>\<open>/api/\<close> anywhere in it, for
  which the lookup over all caches finds nothing and on which the network fails, the
  listener answers a navigation with what the caches hold for \<^verbatim>\<open>/index.html\<close>, the
  cached root document when there is one and nothing when there is none, and any other
  request with nothing. A request whose URL has \<^verbatim>\<open>/api/\<close> in it, be it in the query
  or the fragment only, is routed as a data request: when the network fails its answer
  is the data cache's lookup of the request, with no fallback to the root document.
  When the lookup over all caches finds an entry, in whatever cache, that entry is the
  answer.
\<close>

theorem shell_offline_fallback:
  "(\<not> str_includes (url req) ''/api/'' \<and> caches_match_request req (caches s) = None \<and>
    net (url req) = None \<longrightarrow>
      fst (fetch_listener net req s) =
        (if mode req = Navigate then caches_match ''/index.html'' (caches s) else None)) \<and>
   (str_includes (url req) ''/api/'' \<and> net (url req) = None \<longrightarrow>
      fst (fetch_listener net req s) = cache_match_request DATA_CACHE_NAME req (caches s)) \<and>
   (\<not> str_includes (url req) ''/api/'' \<and> caches_match_request req (caches s) = Some r \<longrightarrow>
      fst (fetch_listener net req s) = Some r)"
  by (simp add: fetch_listener_def fetch_def Let_def cache_match_open cache_match_request_def)

theorem shell_offline_fallback_witness:
  "fst (fetch_listener offline (request_of ''/settings'' Navigate) (world_of shell_store))
     = Some (text_response 200 ''page'') \<and>
   fst (fetch_listener offline (request_of ''/logo.png'' NoCors) (world_of shell_store))
     = None \<and>
   fst (fetch_listener offline (request_of ''/settings?back=/api/'' Navigate) (world_of shell_store))
     = None"
  using shell_offline_fallback
    [where req = "request_of ''/settings'' Navigate" and s = "world_of shell_store"
       and net = offline, THEN conjunct1]
    shell_offline_fallback
    [where req = "request_of ''/logo.png'' NoCors" and s = "world_of shell_store"
       and net = offline, THEN conjunct1]
    shell_offline_fallback
    [where req = "request_of ''/settings?back=/api/'' Navigate" and s = "world_of shell_store"
       and net = offline, THEN conjunct2, THEN conjunct1]
  by (simp add: request_of_def world_of_def offline_def shell_store_def strip_fragment_def
      caches_match_request_def cache_match_request_def CACHE_NAME_def DATA_CACHE_NAME_def)

text \<open>
  Claim C4 as it is written fails for a navigation to \<^verbatim>\<open>/settings?back=/api/\<close>: its
  path does not start with the reserved prefix, so it is in the SHELL category; no cache
  holds an entry for it and the network is down; the root document is cached; and the
  listener answers with nothing. The store is the one the worker's own installation and
  activation leave.
\<close>

theorem shell_navigation_routed_as_data_counterexample:
  "\<not> spec_data_category (url (request_of ''/settings?back=/api/'' Navigate)) \<and>
   mode (request_of ''/settings?back=/api/'' Navigate) = Navigate \<and>
   caches_match_request (request_of ''/settings?back=/api/'' Navigate) shell_store = None \<and>
   offline (url (request_of ''/settings?back=/api/'' Navigate)) = None \<and>
   caches_match ''/index.html'' shell_store = Some (text_response 200 ''page'') \<and>
   fst (fetch_listener offline (request_of ''/settings?back=/api/'' Navigate) (world_of shell_store))
     = None"
  by (simp add: fetch_listener_def fetch_def caches_open_def caches_has_def caches_keys_def
      world_of_def text_response_def request_of_def shell_store_def offline_def
      CACHE_NAME_def DATA_CACHE_NAME_def strip_fragment_def caches_match_request_def
      cache_match_request_def spec_data_category_def url_path_def)

subsection \<open>The reminder pass\<close>

lemma reminder_raised_iff:
  "(reminder parse now t \<noteq> None) =
     (\<exists>d due. dueDate t = Some d \<and> d \<noteq> [] \<and> parse d = Some due \<and>
        daysDiff due now \<le> 0 \<and> \<not> completed t)"
  by (auto simp: reminder_def Let_def split: option.splits)

lemma reminder_tag:
  "reminder parse now t = Some n \<Longrightarrow> tag n = ''task-'' @ show_int (task_id t)"
  by (auto simp: reminder_def Let_def split: option.splits if_splits)

lemma reminder_tags:
  "map tag (List.map_filter (reminder parse now) ts) =
     map (\<lambda>t. ''task-'' @ show_int (task_id t))
       (filter (\<lambda>t. \<exists>d due. dueDate t = Some d \<and> d \<noteq> [] \<and> parse d = Some due \<and>
                  daysDiff due now \<le> 0 \<and> \<not> completed t) ts)"
proof (induction ts)
  case Nil
  then show ?case by simp
next
  case (Cons t ts)
  show ?case
  proof (cases "reminder parse now t")
    case None
    then have "\<not> (\<exists>d due. dueDate t = Some d \<and> d \<noteq> [] \<and> parse d = Some due \<and>
        daysDiff due now \<le> 0 \<and> \<not> completed t)"
      using reminder_raised_iff [of parse now t] by simp
    with None Cons.IH show ?thesis
      by simp
  next
    case (Some n)
    then have "\<exists>d due. dueDate t = Some d \<and> d \<noteq> [] \<and> parse d = Some due \<and>
        daysDiff due now \<le> 0 \<and> \<not> completed t"
      using reminder_raised_iff [of parse now t] by simp
    with Some Cons.IH reminder_tag [OF Some] show ?thesis
      by simp
  qed
qed

lemma daysDiff_eq_iff:
  "(daysDiff due now = k) = ((k - 1) * 86400000 < due - now \<and> due - now \<le> k * 86400000)"
proof -
  have "(daysDiff due now = k) =
      (real_of_int k - 1 < real_of_int (due - now) / 86400000 \<and>
       real_of_int (due - now) / 86400000 \<le> real_of_int k)"
    by (simp add: daysDiff_def ceiling_eq_iff)
  also have "\<dots> = (real_of_int ((k - 1) * 86400000) < real_of_int (due - now) \<and>
      real_of_int (due - now) \<le> real_of_int (k * 86400000))"
    by (simp add: field_simps)
  also have "\<dots> = ((k - 1) * 86400000 < due - now \<and> due - now \<le> k * 86400000)"
    by (simp only: of_int_less_iff of_int_le_iff)
  finally show ?thesis .
qed

lemma parse_examples:
  "parse_ymd ''2024-01-10'' = Some 19732"
  "parse_ymd ''2024-01-09'' = Some 19731"
  "parse_ymd ''2024-01-12'' = Some 19734"
  "parse_ymd ''2024-01-05'' = Some 19727"
  "parse_ymd ''2024-01-01'' = Some 19723"
  "parse_hm ''00:00'' = Some 0"
  "parse_hm ''23:59'' = Some 86340000"
  by code_simp+

lemma date_parse_examples:
  "date_parse tz ''2024-01-10T00:00'' = Some (1704844800000 - tz * 60000)"
  "date_parse tz ''2024-01-10T23:59'' = Some (1704931140000 - tz * 60000)"
  "date_parse tz ''2024-01-09'' = Some 1704758400000"
  "date_parse tz ''2024-01-12'' = Some 1705017600000"
  "date_parse tz ''2024-01-05'' = Some 1704412800000"
  "date_parse tz ''2024-01-01'' = Some 1704067200000"
  by (simp_all add: date_parse_def parse_examples)

lemma show_int_examples: "show_int 1 = ''1''" "show_int 2 = ''2''" "show_int 3 = ''3''"
  by code_simp+

lemma caches_open_has: "caches_has name st \<Longrightarrow> caches_open name st = st"
  by (simp add: caches_open_def)

lemma message_snapshot_stored:
  "cache_match DATA_CACHE_NAME ''/tasks-data'' (caches (message_listener (CACHE_TASK_DATA snap) s))
     = Some (new_Response (Json snap))"
  by (simp add: message_listener_def cache_match_put caches_has_open)

lemma message_other_entries:
  "n \<noteq> DATA_CACHE_NAME \<or> k \<noteq> ''/tasks-data'' \<Longrightarrow>
     cache_match n k (caches (message_listener (CACHE_TASK_DATA snap) s)) = cache_match n k (caches s)"
  by (auto simp: message_listener_def cache_match_put cache_match_open)

lemma check_pass_shown:
  "cache_match DATA_CACHE_NAME ''/tasks-data'' (caches s) = Some r \<Longrightarrow> body r = Json snap \<Longrightarrow>
     shown (checkTaskReminders parse now s) =
       shown s @ List.map_filter (reminder parse now) (concat (map snd snap))"
  by (simp add: checkTaskReminders_def Let_def cache_match_open)

lemma check_after_message:
  "shown (checkTaskReminders parse now (message_listener (CACHE_TASK_DATA snap) s)) =
     shown s @ List.map_filter (reminder parse now) (concat (map snd snap))"
proof -
  have sh: "shown (message_listener (CACHE_TASK_DATA snap) s) = shown s"
    by (simp add: message_listener_def)
  have "body (new_Response (Json snap)) = Json snap"
    by (simp add: new_Response_def)
  from check_pass_shown [OF message_snapshot_stored this] sh show ?thesis
    by simp
qed

lemma three_dates_west:
  assumes "- 1440 < tz" and "tz \<le> 0"
  shows "daysDiff 1704758400000 (1704844800000 - tz * 60000) = - 1"
    and "daysDiff 1705017600000 (1704844800000 - tz * 60000) = 2"
  using assms by (simp_all add: daysDiff_eq_iff)

lemma three_dates_east:
  assumes "0 < tz" and "tz < 1440"
  shows "daysDiff 1704758400000 (1704844800000 - tz * 60000) = 0"
    and "daysDiff 1705017600000 (1704844800000 - tz * 60000) = 3"
  using assms by (simp_all add: daysDiff_eq_iff)

lemma late_today: "daysDiff (1704931140000 - tz * 60000) (1704844800000 - tz * 60000) = 1"
  by (simp add: daysDiff_eq_iff)

lemma three_dates_pass_west:
  assumes "- 1440 < tz" and "tz \<le> 0"
  shows "shown (checkTaskReminders (date_parse tz) (1704844800000 - tz * 60000)
           (message_listener (CACHE_TASK_DATA three_dates_snapshot) s)) =
         shown s @ [\<lparr>title = ''TaskFlow - Task Due!'',
                     nbody = CHR 0x22 # ''y'' @ CHR 0x22 # '' is overdue'',
                     icon = ''/favicon.ico'', tag = ''task-2'', requireInteraction = True\<rparr>]"
  by (simp add: check_after_message three_dates_snapshot_def task_of_def reminder_def Let_def
      date_parse_examples late_today three_dates_west [OF assms]
      show_int_examples)

lemma three_dates_pass_east:
  assumes "0 < tz" and "tz < 1440"
  shows "shown (checkTaskReminders (date_parse tz) (1704844800000 - tz * 60000)
           (message_listener (CACHE_TASK_DATA three_dates_snapshot) s)) =
         shown s @ [\<lparr>title = ''TaskFlow - Task Due!'',
                     nbody = CHR 0x22 # ''y'' @ CHR 0x22 # '' is due today'',
                     icon = ''/favicon.ico'', tag = ''task-2'', requireInteraction = True\<rparr>]"
  by (simp add: check_after_message three_dates_snapshot_def task_of_def reminder_def Let_def
      date_parse_examples late_today three_dates_east [OF assms]
      show_int_examples)

lemma check_pass_absent:
  "cache_match DATA_CACHE_NAME ''/tasks-data'' (caches s) = None \<Longrightarrow>
     shown (checkTaskReminders parse now s) = shown s"
  by (simp add: checkTaskReminders_def Let_def cache_match_open)

text \<open>
  Claim C8 as it is written fails on its first example: from 2024-01-10T00:00 to
  2024-01-10T23:59 there are 86340000 milliseconds, a part of a day, which rounds up to
  one day. The day difference is 1, not 0, and the pass over a snapshot with that task
  shows nothing.
\<close>

theorem reminder_due_late_today_counterexample:
  "date_parse 0 ''2024-01-10T00:00'' = Some 1704844800000 \<and>
   date_parse 0 ''2024-01-10T23:59'' = Some 1704931140000 \<and>
   daysDiff 1704931140000 1704844800000 = 1 \<and>
   daysDiff 1704931140000 1704844800000 \<noteq> 0 \<and>
   reminder (date_parse 0) 1704844800000 (task_of 1 ''x'' ''2024-01-10T23:59'' False) = None \<and>
   shown (checkTaskReminders (date_parse 0) 1704844800000
     (message_listener (CACHE_TASK_DATA [(''work'', [task_of 1 ''x'' ''2024-01-10T23:59'' False])])
        (world_of []))) = []"
  using date_parse_examples(1,2) [of 0]
  by (simp add: daysDiff_div reminder_def task_of_def check_after_message world_of_def)

text \<open>
  Claim C8, as amended. The day difference is the millisecond difference divided by one
  day and rounded up; it is 0, and the task called due today, exactly when the due
  instant lies in the 24 hours that end now. The pass over a stored snapshot shows, after
  what was shown before, one notification for each task of the flattened groups, in
  their order, that has a due date that parses, a difference of at most 0 and is not
  completed, with the tag made of the task's id, and none for any other task; with no
  snapshot stored it shows nothing. The
  examples depend on the worker's time zone, because a date without a time is read as
  UTC and a date with a time as local time. With now 2024-01-10T00:00 local time: the
  due date 2024-01-10T23:59 gives the difference 1 in every zone; in UTC and in the zones
  west of it, 2024-01-09 gives -1 and 2024-01-12 gives 2, and the pass over the three
  tasks shows one notification, for the task due 2024-01-09, that calls it overdue; in
  the zones east of UTC, 2024-01-09 gives 0 and 2024-01-12 gives 3, and the one
  notification calls the task due today.
\<close>

theorem reminder_day_difference:
  "daysDiff due now = \<lceil>real_of_int (due - now) / 86400000\<rceil> \<and>
   (daysDiff due now = 0) = (now - 86400000 < due \<and> due \<le> now) \<and>
   (reminder parse now t \<noteq> None) =
     (\<exists>d due. dueDate t = Some d \<and> d \<noteq> [] \<and> parse d = Some due \<and>
        daysDiff due now \<le> 0 \<and> \<not> completed t) \<and>
   (cache_match DATA_CACHE_NAME ''/tasks-data'' (caches s) = Some r \<and> body r = Json snap \<longrightarrow>
      shown (checkTaskReminders parse now s) =
        shown s @ List.map_filter (reminder parse now) (concat (map snd snap)) \<and>
      map tag (List.map_filter (reminder parse now) (concat (map snd snap))) =
        map (\<lambda>t. ''task-'' @ show_int (task_id t))
          (filter (\<lambda>t. \<exists>d due. dueDate t = Some d \<and> d \<noteq> [] \<and> parse d = Some due \<and>
                     daysDiff due now \<le> 0 \<and> \<not> completed t)
             (concat (map snd snap)))) \<and>
   date_parse tz ''2024-01-10T00:00'' = Some (1704844800000 - tz * 60000) \<and>
   map_option (\<lambda>due. daysDiff due (1704844800000 - tz * 60000))
     (date_parse tz ''2024-01-10T23:59'') = Some 1 \<and>
   (- 1440 < tz \<and> tz \<le> 0 \<longrightarrow>
      map_option (\<lambda>due. daysDiff due (1704844800000 - tz * 60000))
        (date_parse tz ''2024-01-09'') = Some (- 1) \<and>
      map_option (\<lambda>due. daysDiff due (1704844800000 - tz * 60000))
        (date_parse tz ''2024-01-12'') = Some 2 \<and>
      shown (checkTaskReminders (date_parse tz) (1704844800000 - tz * 60000)
               (message_listener (CACHE_TASK_DATA three_dates_snapshot) s0)) =
        shown s0 @ [\<lparr>title = ''TaskFlow - Task Due!'',
                      nbody = CHR 0x22 # ''y'' @ CHR 0x22 # '' is overdue'',
                      icon = ''/favicon.ico'', tag = ''task-2'', requireInteraction = True\<rparr>]) \<and>
   (0 < tz \<and> tz < 1440 \<longrightarrow>
      map_option (\<lambda>due. daysDiff due (1704844800000 - tz * 60000))
        (date_parse tz ''2024-01-09'') = Some 0 \<and>
      map_option (\<lambda>due. daysDiff due (1704844800000 - tz * 60000))
        (date_parse tz ''2024-01-12'') = Some 3 \<and>
      shown (checkTaskReminders (date_parse tz) (1704844800000 - tz * 60000)
               (message_listener (CACHE_TASK_DATA three_dates_snapshot) s0)) =
        shown s0 @ [\<lparr>title = ''TaskFlow - Task Due!'',
                      nbody = CHR 0x22 # ''y'' @ CHR 0x22 # '' is due today'',
                      icon = ''/favicon.ico'', tag = ''task-2'', requireInteraction = True\<rparr>]) \<and>
   (cache_match DATA_CACHE_NAME ''/tasks-data'' (caches s) = None \<longrightarrow>
      shown (checkTaskReminders parse now s) = shown s)"
proof -
  have n: "cache_match DATA_CACHE_NAME ''/tasks-data'' (caches s) = None \<longrightarrow>
      shown (checkTaskReminders parse now s) = shown s"
    using check_pass_absent [of s parse now] by blast
  have a: "daysDiff due now = \<lceil>real_of_int (due - now) / 86400000\<rceil>"
    by (simp add: daysDiff_def)
  have p: "cache_match DATA_CACHE_NAME ''/tasks-data'' (caches s) = Some r \<and> body r = Json snap \<longrightarrow>
      shown (checkTaskReminders parse now s) =
        shown s @ List.map_filter (reminder parse now) (concat (map snd snap)) \<and>
      map tag (List.map_filter (reminder parse now) (concat (map snd snap))) =
        map (\<lambda>t. ''task-'' @ show_int (task_id t))
          (filter (\<lambda>t. \<exists>d due. dueDate t = Some d \<and> d \<noteq> [] \<and> parse d = Some due \<and>
                     daysDiff due now \<le> 0 \<and> \<not> completed t)
             (concat (map snd snap)))"
    using check_pass_shown [of s r snap parse now] reminder_tags [of parse now "concat (map snd snap)"]
    by blast
  have l: "map_option (\<lambda>due. daysDiff due (1704844800000 - tz * 60000))
     (date_parse tz ''2024-01-10T23:59'') = Some 1"
    by (simp add: date_parse_examples late_today)
  have w: "- 1440 < tz \<and> tz \<le> 0 \<longrightarrow>
      map_option (\<lambda>due. daysDiff due (1704844800000 - tz * 60000))
        (date_parse tz ''2024-01-09'') = Some (- 1) \<and>
      map_option (\<lambda>due. daysDiff due (1704844800000 - tz * 60000))
        (date_parse tz ''2024-01-12'') = Some 2 \<and>
      shown (checkTaskReminders (date_parse tz) (1704844800000 - tz * 60000)
               (message_listener (CACHE_TASK_DATA three_dates_snapshot) s0)) =
        shown s0 @ [\<lparr>title = ''TaskFlow - Task Due!'',
                      nbody = CHR 0x22 # ''y'' @ CHR 0x22 # '' is overdue'',
                      icon = ''/favicon.ico'', tag = ''task-2'', requireInteraction = True\<rparr>]"
    using three_dates_west [of tz] three_dates_pass_west [of tz s0]
    by (simp add: date_parse_examples)
  have e: "0 < tz \<and> tz < 1440 \<longrightarrow>
      map_option (\<lambda>due. daysDiff due (1704844800000 - tz * 60000))
        (date_parse tz ''2024-01-09'') = Some 0 \<and>
      map_option (\<lambda>due. daysDiff due (1704844800000 - tz * 60000))
        (date_parse tz ''2024-01-12'') = Some 3 \<and>
      shown (checkTaskReminders (date_parse tz) (1704844800000 - tz * 60000)
               (message_listener (CACHE_TASK_DATA three_dates_snapshot) s0)) =
        shown s0 @ [\<lparr>title = ''TaskFlow - Task Due!'',
                      nbody = CHR 0x22 # ''y'' @ CHR 0x22 # '' is due today'',
                      icon = ''/favicon.ico'', tag = ''task-2'', requireInteraction = True\<rparr>]"
    using three_dates_east [of tz] three_dates_pass_east [of tz s0]
    by (simp add: date_parse_examples)
  show ?thesis
    by (intro conjI) (rule a daysDiff_eq_0 reminder_raised_iff p date_parse_examples l w e n)+
qed

theorem reminder_day_difference_witness:
  "map nbody (shown (checkTaskReminders (date_parse 0) 1704844800000
      (message_listener (CACHE_TASK_DATA three_dates_snapshot) (world_of []))))
     = [CHR 0x22 # ''y'' @ CHR 0x22 # '' is overdue''] \<and>
   map nbody (shown (checkTaskReminders (date_parse 540) 1704812400000
      (message_listener (CACHE_TASK_DATA three_dates_snapshot) (world_of []))))
     = [CHR 0x22 # ''y'' @ CHR 0x22 # '' is due today''] \<and>
   shown (checkTaskReminders (date_parse 0) 1704844800000
      (message_listener (CACHE_TASK_DATA [(''work'', [task_of 8 ''done'' ''2024-01-09'' True])])
         (world_of []))) = []"
proof -
  let ?s = "message_listener (CACHE_TASK_DATA [(''work'', [task_of 8 ''done'' ''2024-01-09'' True])])
    (world_of [])"
  have west: "shown (checkTaskReminders (date_parse 0) (1704844800000 - 0 * 60000)
      (message_listener (CACHE_TASK_DATA three_dates_snapshot) (world_of []))) =
      shown (world_of []) @ [\<lparr>title = ''TaskFlow - Task Due!'',
                      nbody = CHR 0x22 # ''y'' @ CHR 0x22 # '' is overdue'',
                      icon = ''/favicon.ico'', tag = ''task-2'', requireInteraction = True\<rparr>]"
    using reminder_day_difference [where tz = 0 and ?s0.0 = "world_of []"]
    by simp
  have east: "shown (checkTaskReminders (date_parse 540) (1704844800000 - 540 * 60000)
      (message_listener (CACHE_TASK_DATA three_dates_snapshot) (world_of []))) =
      shown (world_of []) @ [\<lparr>title = ''TaskFlow - Task Due!'',
                      nbody = CHR 0x22 # ''y'' @ CHR 0x22 # '' is due today'',
                      icon = ''/favicon.ico'', tag = ''task-2'', requireInteraction = True\<rparr>]"
    using reminder_day_difference [where tz = 540 and ?s0.0 = "world_of []"]
    by simp
  have stored: "cache_match DATA_CACHE_NAME ''/tasks-data'' (caches ?s) =
      Some (new_Response (Json [(''work'', [task_of 8 ''done'' ''2024-01-09'' True])])) \<and>
      body (new_Response (Json [(''work'', [task_of 8 ''done'' ''2024-01-09'' True])])) =
      Json [(''work'', [task_of 8 ''done'' ''2024-01-09'' True])]"
    by (simp add: message_snapshot_stored new_Response_def)
  have none: "\<not> (\<exists>d due. dueDate (task_of 8 ''done'' ''2024-01-09'' True) = Some d \<and> d \<noteq> [] \<and>
      date_parse 0 d = Some due \<and> daysDiff due 1704844800000 \<le> 0 \<and>
      \<not> completed (task_of 8 ''done'' ''2024-01-09'' True))"
    by (simp add: task_of_def)
  have "reminder (date_parse 0) 1704844800000 (task_of 8 ''done'' ''2024-01-09'' True) = None"
    using none reminder_day_difference
      [where parse = "date_parse 0" and now = 1704844800000
         and t = "task_of 8 ''done'' ''2024-01-09'' True",
       THEN conjunct2, THEN conjunct2, THEN conjunct1]
    by blast
  moreover have "shown (checkTaskReminders (date_parse 0) 1704844800000 ?s) =
      shown ?s @ List.map_filter (reminder (date_parse 0) 1704844800000)
        (concat (map snd [(''work'', [task_of 8 ''done'' ''2024-01-09'' True])]))"
    using stored reminder_day_difference
      [where parse = "date_parse 0" and now = 1704844800000 and s = ?s
         and r = "new_Response (Json [(''work'', [task_of 8 ''done'' ''2024-01-09'' True])])"
         and snap = "[(''work'', [task_of 8 ''done'' ''2024-01-09'' True])]",
       THEN conjunct2, THEN conjunct2, THEN conjunct2, THEN conjunct1]
    by blast
  ultimately have quiet: "shown (checkTaskReminders (date_parse 0) 1704844800000 ?s) = []"
    by (simp add: message_listener_def world_of_def)
  from west east quiet show ?thesis
    by (simp add: world_of_def)
qed

subsection \<open>The message listener and the periodic trigger\<close>

lemma overdue_task_1:
  assumes "1704412800000 \<le> now"
  shows "reminder (date_parse tz) now
      \<lparr>task_id = 1, task_text = ''x'', dueDate = Some ''2024-01-01'', completed = False\<rparr>
    = Some \<lparr>title = ''TaskFlow - Task Due!'', nbody = CHR 0x22 # ''x'' @ CHR 0x22 # '' is overdue'',
            icon = ''/favicon.ico'', tag = ''task-1'', requireInteraction = True\<rparr>"
proof -
  from assms have le: "daysDiff 1704067200000 now \<le> 0"
    by (simp add: daysDiff_le_0)
  from assms have ne: "daysDiff 1704067200000 now \<noteq> 0"
    by (simp add: daysDiff_eq_0)
  from le ne show ?thesis
    by (simp add: reminder_def Let_def date_parse_examples show_int_examples)
qed

text \<open>
  Claim C9. After a \<^verbatim>\<open>CACHE_TASK_DATA\<close> message the entry \<^verbatim>\<open>/tasks-data\<close> of the data
  cache is a response whose body is the snapshot of the message, whatever the entry was
  before, and no other entry of any cache has changed. When the snapshot is the group
  \<^verbatim>\<open>work\<close> with the one task of id 1, text x, due date 2024-01-01, not completed, a
  periodic trigger at any instant of 2024-01-05 shows one more notification, with the
  tag \<^verbatim>\<open>task-1\<close>, in every time zone.
\<close>

theorem task_snapshot_replaced_and_reminded:
  "cache_match DATA_CACHE_NAME ''/tasks-data'' (caches (message_listener (CACHE_TASK_DATA snap) s))
     = Some (new_Response (Json snap)) \<and>
   (\<forall>n k. n \<noteq> DATA_CACHE_NAME \<or> k \<noteq> ''/tasks-data'' \<longrightarrow>
      cache_match n k (caches (message_listener (CACHE_TASK_DATA snap) s)) = cache_match n k (caches s)) \<and>
   date_parse tz ''2024-01-05'' = Some 1704412800000 \<and>
   (1704412800000 \<le> now \<and> now < 1704499200000 \<longrightarrow>
      shown (periodicsync_listener ''task-reminders'' (date_parse tz) now
        (message_listener
           (CACHE_TASK_DATA [(''work'', [\<lparr>task_id = 1, task_text = ''x'',
                                           dueDate = Some ''2024-01-01'', completed = False\<rparr>])]) s))
      = shown s @ [\<lparr>title = ''TaskFlow - Task Due!'',
                     nbody = CHR 0x22 # ''x'' @ CHR 0x22 # '' is overdue'',
                     icon = ''/favicon.ico'', tag = ''task-1'', requireInteraction = True\<rparr>])"
proof -
  have d: "shown (periodicsync_listener ''task-reminders'' (date_parse tz) now
        (message_listener
           (CACHE_TASK_DATA [(''work'', [\<lparr>task_id = 1, task_text = ''x'',
                                           dueDate = Some ''2024-01-01'', completed = False\<rparr>])]) s))
      = shown s @ [\<lparr>title = ''TaskFlow - Task Due!'',
                     nbody = CHR 0x22 # ''x'' @ CHR 0x22 # '' is overdue'',
                     icon = ''/favicon.ico'', tag = ''task-1'', requireInteraction = True\<rparr>]"
    if "1704412800000 \<le> now"
    using overdue_task_1 [OF that]
    by (simp add: periodicsync_listener_def check_after_message)
  show ?thesis
    using d by (auto simp: message_snapshot_stored message_other_entries date_parse_examples)
qed

theorem task_snapshot_replaced_and_reminded_witness:
  "map tag (shown (periodicsync_listener ''task-reminders'' (date_parse 0) 1704412800000
     (message_listener
        (CACHE_TASK_DATA [(''work'', [\<lparr>task_id = 1, task_text = ''x'',
                                        dueDate = Some ''2024-01-01'', completed = False\<rparr>])])
        (message_listener
           (CACHE_TASK_DATA [(''home'', [\<lparr>task_id = 2, task_text = ''y'',
                                           dueDate = Some ''2024-01-01'', completed = False\<rparr>])])
           (world_of [])))))
   = [''task-1'']"
  using task_snapshot_replaced_and_reminded
    [where now = 1704412800000 and tz = 0
       and s = "message_listener
           (CACHE_TASK_DATA [(''home'', [\<lparr>task_id = 2, task_text = ''y'',
                                           dueDate = Some ''2024-01-01'', completed = False\<rparr>])])
           (world_of [])",
     THEN conjunct2, THEN conjunct2, THEN conjunct2]
  by (simp add: message_listener_def world_of_def)

end
